theory Spec2Isabelle
  imports Main "HOL-Library.Word" "HOL-Library.Sublist"
begin

section \<open>The hybrid content storage: relational table plus file tree\<close>

text \<open>
  The class \<open>ChipfabrikMySqlContentStorage\<close> keeps the metadata and the parameters of
  each content object as two JSON texts in one row of the table \<open>content\<close> and keeps the
  files of the object under the directory \<open>contentPath/contentId\<close>. The model below has the
  table as the list of its rows, the file tree as a datatype, and every method of the class
  as a function from the storage to a result and the storage afterwards. A rejected promise
  and a thrown exception are the left injection of the result.

  Each \<open>await\<close> of the source is completed before the next statement runs, and the queries
  sent over the single connection are executed in the order they are issued, so a call is
  one sequential run and its effect on the table is applied where the query is issued.
  The parameter \<open>user\<close> of the methods is never read by them and is left out.
\<close>

subsection \<open>Paths\<close>

type_synonym path = "string list"

text \<open>The segments of a path text, split at the separator \<open>/\<close>.\<close>

fun split_path :: "string \<Rightarrow> string list" where
  "split_path [] = [[]]"
| "split_path (c # cs) =
     (if c = CHR ''/'' then [] # split_path cs
      else (case split_path cs of
              [] \<Rightarrow> [[c]]
            | seg # segs \<Rightarrow> (c # seg) # segs))"

text \<open>
  \<open>path.normalize\<close> on the segments of an absolute path: empty segments and \<open>.\<close> vanish,
  \<open>..\<close> removes the segment before it and is dropped at the root. The accumulator holds
  the segments kept so far, the last one first.
\<close>

fun normalize_acc :: "string list \<Rightarrow> string list \<Rightarrow> path" where
  "normalize_acc acc [] = rev acc"
| "normalize_acc acc (seg # segs) =
     (if seg = [] \<or> seg = ''.'' then normalize_acc acc segs
      else if seg = ''..'' then
        (case acc of
           [] \<Rightarrow> normalize_acc [] segs
         | _ # acc' \<Rightarrow> normalize_acc acc' segs)
      else normalize_acc (seg # acc) segs)"

text \<open>
  A path is the list of its segments. \<open>path.normalize\<close> keeps a separator at the end of
  the text; it is kept here as an empty segment at the end of the list.
\<close>

definition trailing_separator :: "path \<Rightarrow> bool" where
  "trailing_separator p = (p \<noteq> [] \<and> last p = [])"

definition path_segments :: "path \<Rightarrow> path" where
  "path_segments p = (if trailing_separator p then butlast p else p)"

text \<open>
  \<open>path.join\<close>: the arguments that are not empty are put together with the separator
  and the result is normalised; the segments of the joined text are the segments of
  these arguments in order, and the text ends with a separator when the last of them
  does. The root has no separator added. Paths are read from the root of the file tree
  (\<open>contentPath\<close> is an absolute path, as \<open>path.resolve\<close> gives it in the example
  server).
\<close>

definition path_join :: "string list \<Rightarrow> path" where
  "path_join parts =
     (let segs = concat (map split_path (filter (\<lambda>part. part \<noteq> []) parts));
          norm = normalize_acc [] segs
      in if segs \<noteq> [] \<and> last segs = [] \<and> norm \<noteq> [] then norm @ [[]] else norm)"

text \<open>\<open>path.dirname\<close> of a normalised path; a separator at the end does not count.\<close>

definition path_dirname :: "path \<Rightarrow> path" where
  "path_dirname p = butlast (path_segments p)"

text \<open>
  \<open>path.relative from to\<close> on normalised paths: the common prefix is dropped, each
  segment left of \<open>from\<close> becomes \<open>..\<close>, and the rest of \<open>to\<close> follows.
\<close>

fun path_relative :: "path \<Rightarrow> path \<Rightarrow> path" where
  "path_relative (a # as) (b # bs) =
     (if a = b then path_relative as bs
      else map (\<lambda>_. ''..'') (a # as) @ (b # bs))"
| "path_relative as bs = map (\<lambda>_. ''..'') as @ bs"

text \<open>A path as text: its segments with the separator between them.\<close>

fun path_text :: "path \<Rightarrow> string" where
  "path_text [] = []"
| "path_text [seg] = seg"
| "path_text (seg # segs) = seg @ CHR ''/'' # path_text segs"

text \<open>
  Content ids are the values of the column \<open>id INT UNSIGNED\<close>. The directory of a content
  object is named by the decimal digits of its id.
\<close>

type_synonym ContentId = nat

definition digit_char :: "nat \<Rightarrow> char" where
  "digit_char d = ''0123456789'' ! d"

fun id_text :: "ContentId \<Rightarrow> string" where
  "id_text n = (if n < 10 then [digit_char n] else id_text (n div 10) @ [digit_char (n mod 10)])"

declare id_text.simps [simp del]

subsection \<open>The file tree\<close>

type_synonym byte = "8 word"

datatype node = File "byte list" | Dir "(string \<times> node) list"

text \<open>The entry at a path, if there is one. The first entry of a name in a directory counts.\<close>

fun fs_lookup :: "path \<Rightarrow> node \<Rightarrow> node option" where
  "fs_lookup [] n = Some n"
| "fs_lookup (seg # p) (File bs) = None"
| "fs_lookup (seg # p) (Dir es) =
     (case map_of es seg of None \<Rightarrow> None | Some c \<Rightarrow> fs_lookup p c)"

text \<open>
  What the file system finds at a path. A path that ends with a separator names a
  directory only: where its segments lead to a file, nothing is found.
\<close>

definition fs_resolve :: "path \<Rightarrow> node \<Rightarrow> node option" where
  "fs_resolve p t =
     (case fs_lookup (path_segments p) t of
        Some (File bs) \<Rightarrow> if trailing_separator p then None else Some (File bs)
      | found \<Rightarrow> found)"

text \<open>\<open>fsExtra.pathExists\<close>: true for a file and for a directory.\<close>

definition fs_pathExists :: "path \<Rightarrow> node \<Rightarrow> bool" where
  "fs_pathExists p t = (fs_resolve p t \<noteq> None)"

text \<open>
  The tree without the entry at the segments, and without everything below it. At the
  root only what the root holds can go.
\<close>

fun remove_entry :: "path \<Rightarrow> node \<Rightarrow> node" where
  "remove_entry [] (File bs) = File bs"
| "remove_entry [] (Dir es) = Dir []"
| "remove_entry (seg # p) (File bs) = File bs"
| "remove_entry [seg] (Dir es) = Dir (filter (\<lambda>e. fst e \<noteq> seg) es)"
| "remove_entry (seg # p) (Dir es) =
     Dir (map (\<lambda>e. if fst e = seg then (fst e, remove_entry p (snd e)) else e) es)"

text \<open>
  \<open>fsExtra.remove\<close>: what is found at the path goes; nothing happens when nothing is
  found. The methods call it only where \<open>pathExists\<close> holds.
\<close>

definition fs_remove :: "path \<Rightarrow> node \<Rightarrow> node" where
  "fs_remove p t = (if fs_pathExists p t then remove_entry (path_segments p) t else t)"

text \<open>The first entry of a name is replaced; a new name is put at the end.\<close>

fun set_entry :: "string \<Rightarrow> node \<Rightarrow> (string \<times> node) list \<Rightarrow> (string \<times> node) list" where
  "set_entry seg c [] = [(seg, c)]"
| "set_entry seg c (e # es) = (if fst e = seg then (seg, c) # es else e # set_entry seg c es)"

text \<open>
  \<open>fsExtra.ensureDir\<close>: every missing directory on the path is made. It fails, and
  changes nothing, when an entry on the path is a file.
\<close>

fun make_dirs :: "path \<Rightarrow> node \<Rightarrow> node option" where
  "make_dirs p (File bs) = None"
| "make_dirs [] (Dir es) = Some (Dir es)"
| "make_dirs (seg # p) (Dir es) =
     (case map_of es seg of
        None \<Rightarrow>
          (case make_dirs p (Dir []) of
             None \<Rightarrow> None
           | Some c \<Rightarrow> Some (Dir (es @ [(seg, c)])))
      | Some c \<Rightarrow>
          (case make_dirs p c of
             None \<Rightarrow> None
           | Some c' \<Rightarrow> Some (Dir (set_entry seg c' es))))"

definition fs_ensureDir :: "path \<Rightarrow> node \<Rightarrow> node option" where
  "fs_ensureDir p t = make_dirs (path_segments p) t"

text \<open>
  \<open>fsExtra.createWriteStream\<close> with the bytes of the source piped into it: the file at
  the path is made or replaced. It fails when the path is a directory, when its parent is
  missing, when an entry on the way is a file, or when the path ends with a separator.
\<close>

fun write_entry :: "path \<Rightarrow> byte list \<Rightarrow> node \<Rightarrow> node option" where
  "write_entry [] bs (File old) = Some (File bs)"
| "write_entry [] bs (Dir es) = None"
| "write_entry (seg # p) bs (File old) = None"
| "write_entry (seg # p) bs (Dir es) =
     (case map_of es seg of
        None \<Rightarrow> (if p = [] then Some (Dir (es @ [(seg, File bs)])) else None)
      | Some c \<Rightarrow>
          (case write_entry p bs c of
             None \<Rightarrow> None
           | Some c' \<Rightarrow> Some (Dir (set_entry seg c' es))))"

definition fs_writeFile :: "path \<Rightarrow> byte list \<Rightarrow> node \<Rightarrow> node option" where
  "fs_writeFile p bs t = (if trailing_separator p then None else write_entry p bs t)"

text \<open>
  \<open>fsExtra.stat\<close>: of the fields of \<open>IFileStats\<close> the model keeps the size of a file.
\<close>

datatype IFileStats = FileStats nat | DirStats

fun stats_of :: "node \<Rightarrow> IFileStats" where
  "stats_of (File bs) = FileStats (length bs)"
| "stats_of (Dir es) = DirStats"

subsection \<open>Errors\<close>

text \<open>
  \<open>H5pError\<close> carries its message key and its HTTP status. \<open>InvalidFilename\<close> is what
  \<open>checkFilename\<close> throws, \<open>QueryError\<close> the error the connection hands to a callback,
  \<open>TypeError\<close> the property access on \<open>null\<close>, \<open>SyntaxError\<close> what \<open>JSON.parse\<close>
  throws, \<open>RangeError\<close> what \<open>createReadStream\<close> throws for a start behind the end, and
  \<open>FilesystemError\<close> a failed call of the file system.
\<close>

datatype error =
    H5pError string nat
  | InvalidFilename
  | QueryError
  | TypeError
  | SyntaxError
  | RangeError
  | FilesystemError

text \<open>
  \<open>fsExtra.createReadStream path {start, end}\<close>: both bounds are inclusive and count
  from 0, an absent start is 0, an absent end is the end of the file. A start behind the
  end is refused when the stream is made. The stream is modelled by the bytes it yields;
  it fails where the path is no file.
\<close>

definition range_valid :: "nat option \<Rightarrow> nat option \<Rightarrow> bool" where
  "range_valid rangeStart rangeEnd =
     (case rangeStart of
        None \<Rightarrow> True
      | Some st \<Rightarrow> (case rangeEnd of None \<Rightarrow> True | Some en \<Rightarrow> st \<le> en))"

definition range_bytes :: "nat option \<Rightarrow> nat option \<Rightarrow> byte list \<Rightarrow> byte list" where
  "range_bytes rangeStart rangeEnd bs =
     (let st = (case rangeStart of None \<Rightarrow> 0 | Some st \<Rightarrow> st)
      in case rangeEnd of
           None \<Rightarrow> drop st bs
         | Some en \<Rightarrow> take (Suc en - st) (drop st bs))"

definition fs_createReadStream ::
  "path \<Rightarrow> nat option \<Rightarrow> nat option \<Rightarrow> node \<Rightarrow> error + byte list" where
  "fs_createReadStream p rangeStart rangeEnd t =
     (if \<not> range_valid rangeStart rangeEnd then Inl RangeError
      else case fs_resolve p t of
             Some (File bs) \<Rightarrow> Inr (range_bytes rangeStart rangeEnd bs)
           | _ \<Rightarrow> Inl FilesystemError)"

subsection \<open>The glob pattern of \<open>listFiles\<close>\<close>

text \<open>
  \<open>listFiles\<close> asks \<open>glob\<close> for \<open>contentDirectoryPath/**/*.*\<close> with \<open>nodir\<close>. The last
  part \<open>*.*\<close> matches a name that has a dot in it and, as the option \<open>dot\<close> is not set,
  does not begin with one. The part \<open>**\<close> stands for any number of directories, none of
  which begins with a dot. With \<open>nodir\<close> only files are reported. The segments of the
  content directory are taken literally.
\<close>

definition hidden :: "string \<Rightarrow> bool" where
  "hidden name = (case name of [] \<Rightarrow> False | c # cs \<Rightarrow> c = CHR ''.'')"

definition star_dot_star :: "string \<Rightarrow> bool" where
  "star_dot_star name = (\<not> hidden name \<and> CHR ''.'' \<in> set name)"

fun glob_entries :: "path \<Rightarrow> (string \<times> node) list \<Rightarrow> path list" where
  "glob_entries dir [] = []"
| "glob_entries dir ((name, File bs) # es) =
     (if star_dot_star name then [dir @ [name]] else []) @ glob_entries dir es"
| "glob_entries dir ((name, Dir ds) # es) =
     (if hidden name then [] else glob_entries (dir @ [name]) ds) @ glob_entries dir es"

definition fs_glob :: "path \<Rightarrow> node \<Rightarrow> path list" where
  "fs_glob dir t =
     (case fs_lookup dir t of
        Some (Dir es) \<Rightarrow> glob_entries dir es
      | _ \<Rightarrow> [])"

subsection \<open>Documents\<close>

text \<open>
  Metadata and parameters are JSON documents. \<open>JSON.stringify\<close> and \<open>JSON.parse\<close>
  belong to the platform and are parameters of the methods that call them:
  \<open>stringify\<close> gives the text of a document, \<open>parse\<close> gives the document of a text, or
  nothing where \<open>JSON.parse\<close> throws.
\<close>

datatype json =
    JNull
  | JBool bool
  | JNumber int
  | JString string
  | JArray "json list"
  | JObject "(string \<times> json) list"

record ILibraryName =
  machineName :: string
  majorVersion :: nat
  minorVersion :: nat

text \<open>
  \<open>contentMetadata.mainLibrary === library.machineName\<close>: reading a property of \<open>null\<close>
  throws; a value that is not an object has no such property.
\<close>

fun isMainLibrary :: "json \<Rightarrow> string \<Rightarrow> error + bool" where
  "isMainLibrary JNull name = Inl TypeError"
| "isMainLibrary (JObject props) name = Inr (map_of props ''mainLibrary'' = Some (JString name))"
| "isMainLibrary doc name = Inr False"

subsection \<open>The storage\<close>

text \<open>The columns of the table \<open>content\<close>, in the order of \<open>init\<close>.\<close>

record row =
  row_id :: ContentId
  row_content :: string
  row_metadata :: string

datatype fs_call =
  PathExists | Remove | EnsureDir | CreateWriteStream | Stat | CreateReadStream | Glob

datatype query =
    Insert
  | Update ContentId
  | Count ContentId
  | Delete ContentId
  | SelectMetadata ContentId
  | SelectContent ContentId
  | SelectIds

datatype event = FsCall fs_call path | DbQuery query

text \<open>
  \<open>contentPath\<close> is the option of that name. \<open>connection_ok\<close> says whether the connection
  answers queries; when it does not, every callback gets an error and no result.
  \<open>auto_increment\<close> is the next value of the column \<open>id\<close>. \<open>trace\<close> lists the calls of
  the file system and the queries in the order the methods issue them.
\<close>

record storage =
  contentPath :: string
  connection_ok :: bool
  table :: "row list"
  auto_increment :: nat
  fs :: node
  trace :: "event list"

definition log :: "event \<Rightarrow> storage \<Rightarrow> storage" where
  "log e s = s\<lparr>trace := trace s @ [e]\<rparr>"

text \<open>The table as \<open>init\<close> leaves it in an empty database.\<close>

definition init :: "string \<Rightarrow> node \<Rightarrow> storage" where
  "init root t =
     \<lparr>contentPath = root, connection_ok = True, table = [], auto_increment = 1,
      fs = t, trace = []\<rparr>"

subsection \<open>The methods on the table\<close>

text \<open>
  With a content id the row of that id is updated and the id comes back, whether or not
  there is such a row. Without one a row is inserted under the next id.
\<close>

definition addContent ::
  "(json \<Rightarrow> string) \<Rightarrow> json \<Rightarrow> json \<Rightarrow> ContentId option \<Rightarrow> storage
     \<Rightarrow> (error + ContentId) \<times> storage" where
  "addContent stringify metadata content contentId s =
     (let metadataJson = stringify metadata;
          contentJson = stringify content
      in case contentId of
           Some c \<Rightarrow>
             (let s1 = log (DbQuery (Update c)) s
              in if \<not> connection_ok s1 then (Inl QueryError, s1)
                 else (Inr c,
                       s1\<lparr>table :=
                            map (\<lambda>r. if row_id r = c
                                      then r\<lparr>row_metadata := metadataJson,
                                              row_content := contentJson\<rparr>
                                      else r) (table s1)\<rparr>))
         | None \<Rightarrow>
             (let s1 = log (DbQuery Insert) s
              in if \<not> connection_ok s1 then (Inl QueryError, s1)
                 else (Inr (auto_increment s1),
                       s1\<lparr>table :=
                            table s1 @
                              [\<lparr>row_id = auto_increment s1, row_content = contentJson,
                                row_metadata = metadataJson\<rparr>],
                          auto_increment := Suc (auto_increment s1)\<rparr>)))"

text \<open>\<open>SELECT ... FROM content WHERE id = ?\<close>\<close>

definition select_id :: "ContentId \<Rightarrow> storage \<Rightarrow> row list" where
  "select_id c s = filter (\<lambda>r. row_id r = c) (table s)"

definition contentExists :: "ContentId \<Rightarrow> storage \<Rightarrow> (error + bool) \<times> storage" where
  "contentExists c s =
     (let s1 = log (DbQuery (Count c)) s
      in if \<not> connection_ok s1 then (Inl QueryError, s1)
         else if length (select_id c s1) = 0 then (Inr False, s1)
         else (Inr True, s1))"

definition getMetadata ::
  "(string \<Rightarrow> json option) \<Rightarrow> ContentId \<Rightarrow> storage \<Rightarrow> (error + json) \<times> storage" where
  "getMetadata parse c s =
     (let s1 = log (DbQuery (SelectMetadata c)) s
      in if \<not> connection_ok s1 then (Inl QueryError, s1)
         else (case select_id c s1 of
                 [] \<Rightarrow> (Inr JNull, s1)
               | r # rs \<Rightarrow>
                   (case parse (row_metadata r) of
                      None \<Rightarrow> (Inl SyntaxError, s1)
                    | Some metadata \<Rightarrow> (Inr metadata, s1))))"

definition getParameters ::
  "(string \<Rightarrow> json option) \<Rightarrow> ContentId \<Rightarrow> storage \<Rightarrow> (error + json) \<times> storage" where
  "getParameters parse c s =
     (let s1 = log (DbQuery (SelectContent c)) s
      in if \<not> connection_ok s1 then (Inl QueryError, s1)
         else (case select_id c s1 of
                 [] \<Rightarrow> (Inr JNull, s1)
               | r # rs \<Rightarrow>
                   (case parse (row_content r) of
                      None \<Rightarrow> (Inl SyntaxError, s1)
                    | Some content \<Rightarrow> (Inr content, s1))))"

text \<open>
  \<open>SELECT id FROM content WHERE metadata IS NOT NULL\<close>: the column is \<open>NOT NULL\<close>, so
  every row is selected.
\<close>

definition listContent :: "storage \<Rightarrow> (error + ContentId list) \<times> storage" where
  "listContent s =
     (let s1 = log (DbQuery SelectIds) s
      in if \<not> connection_ok s1 then (Inl QueryError, s1)
         else (Inr (map row_id (table s1)), s1))"

text \<open>
  The loop of \<open>getUsage\<close> over the content ids, with its two counters. The dependency
  predicate \<open>hasDependencyOn\<close> is imported from the dependency checker and is a parameter.
\<close>

record usage =
  asDependency :: nat
  asMainLibrary :: nat

fun getUsage_loop ::
  "(json \<Rightarrow> ILibraryName \<Rightarrow> bool) \<Rightarrow> (string \<Rightarrow> json option) \<Rightarrow> ILibraryName
     \<Rightarrow> ContentId list \<Rightarrow> nat \<Rightarrow> nat \<Rightarrow> storage \<Rightarrow> (error + usage) \<times> storage" where
  "getUsage_loop hasDependencyOn parse library [] asDep asMain s =
     (Inr \<lparr>asDependency = asDep, asMainLibrary = asMain\<rparr>, s)"
| "getUsage_loop hasDependencyOn parse library (c # cs) asDep asMain s =
     (case getMetadata parse c s of
        (Inl e, s1) \<Rightarrow> (Inl e, s1)
      | (Inr contentMetadata, s1) \<Rightarrow>
          (case isMainLibrary contentMetadata (machineName library) of
             Inl e \<Rightarrow> (Inl e, s1)
           | Inr isMain \<Rightarrow>
               if hasDependencyOn contentMetadata library then
                 (if isMain
                  then getUsage_loop hasDependencyOn parse library cs asDep (asMain + 1) s1
                  else getUsage_loop hasDependencyOn parse library cs (asDep + 1) asMain s1)
               else getUsage_loop hasDependencyOn parse library cs asDep asMain s1))"

definition getUsage ::
  "(json \<Rightarrow> ILibraryName \<Rightarrow> bool) \<Rightarrow> (string \<Rightarrow> json option) \<Rightarrow> ILibraryName
     \<Rightarrow> storage \<Rightarrow> (error + usage) \<times> storage" where
  "getUsage hasDependencyOn parse library s =
     (case listContent s of
        (Inl e, s1) \<Rightarrow> (Inl e, s1)
      | (Inr contentIds, s1) \<Rightarrow> getUsage_loop hasDependencyOn parse library contentIds 0 0 s1)"

subsection \<open>The methods on the files\<close>

text \<open>
  \<open>checkFilename\<close> is imported from \<open>filenameUtils\<close> and is a parameter \<open>check\<close> of the
  methods that call it: \<open>check name\<close> holds when \<open>checkFilename name\<close> returns, and
  fails when it throws.
\<close>

definition content_dir :: "storage \<Rightarrow> ContentId \<Rightarrow> path" where
  "content_dir s c = path_join [contentPath s, id_text c]"

definition file_path :: "storage \<Rightarrow> ContentId \<Rightarrow> string \<Rightarrow> path" where
  "file_path s c filename = path_join [contentPath s, id_text c, filename]"

definition addFile ::
  "(string \<Rightarrow> bool) \<Rightarrow> ContentId \<Rightarrow> string \<Rightarrow> byte list \<Rightarrow> storage
     \<Rightarrow> (error + unit) \<times> storage" where
  "addFile check c filename readStream s =
     (if \<not> check filename then (Inl InvalidFilename, s)
      else
        let fullPath = file_path s c filename;
            s1 = log (FsCall EnsureDir (path_dirname fullPath)) s
        in case fs_ensureDir (path_dirname fullPath) (fs s1) of
             None \<Rightarrow> (Inl FilesystemError, s1)
           | Some t1 \<Rightarrow>
               (let s2 = log (FsCall CreateWriteStream fullPath) (s1\<lparr>fs := t1\<rparr>)
                in case fs_writeFile fullPath readStream (fs s2) of
                     None \<Rightarrow> (Inl FilesystemError, s2)
                   | Some t2 \<Rightarrow> (Inr (), s2\<lparr>fs := t2\<rparr>)))"

text \<open>
  \<open>deleteContent\<close> in its two parts: the awaited removal of the directory, and the
  \<open>DELETE\<close> query that is issued after it. An error of the query is thrown inside the
  callback, where the promise of the method does not see it.
\<close>

definition deleteContent_files :: "ContentId \<Rightarrow> storage \<Rightarrow> storage" where
  "deleteContent_files c s =
     (let contentPath = content_dir s c;
          s1 = log (FsCall PathExists contentPath) s
      in if fs_pathExists contentPath (fs s1)
         then (let s2 = log (FsCall Remove contentPath) s1
               in s2\<lparr>fs := fs_remove contentPath (fs s2)\<rparr>)
         else s1)"

definition deleteContent_query :: "ContentId \<Rightarrow> storage \<Rightarrow> storage" where
  "deleteContent_query c s =
     (let s1 = log (DbQuery (Delete c)) s
      in if \<not> connection_ok s1 then s1
         else s1\<lparr>table := filter (\<lambda>r. row_id r \<noteq> c) (table s1)\<rparr>)"

definition deleteContent :: "ContentId \<Rightarrow> storage \<Rightarrow> (error + unit) \<times> storage" where
  "deleteContent c s = (Inr (), deleteContent_query c (deleteContent_files c s))"

definition deleteFile ::
  "(string \<Rightarrow> bool) \<Rightarrow> ContentId \<Rightarrow> string \<Rightarrow> storage \<Rightarrow> (error + unit) \<times> storage" where
  "deleteFile check c filename s =
     (if \<not> check filename then (Inl InvalidFilename, s)
      else
        let absolutePath = file_path s c filename;
            s1 = log (FsCall PathExists absolutePath) s
        in if \<not> fs_pathExists absolutePath (fs s1)
           then (Inl (H5pError ''storage-file-implementations:delete-content-file-not-found''
                        404), s1)
           else (let s2 = log (FsCall Remove absolutePath) s1
                 in (Inr (), s2\<lparr>fs := fs_remove absolutePath (fs s2)\<rparr>)))"

text \<open>
  In \<open>fileExists\<close>, \<open>getFileStats\<close> and \<open>getFileStream\<close> the content id may be
  \<open>undefined\<close>, which is \<open>None\<close>. The second \<open>resolve\<close> of \<open>fileExists\<close> has no effect
  once the first has run.
\<close>

definition fileExists ::
  "(string \<Rightarrow> bool) \<Rightarrow> ContentId option \<Rightarrow> string \<Rightarrow> storage
     \<Rightarrow> (error + bool) \<times> storage" where
  "fileExists check contentId filename s =
     (if \<not> check filename then (Inl InvalidFilename, s)
      else case contentId of
             Some c \<Rightarrow>
               (let s1 = log (FsCall PathExists (file_path s c filename)) s
                in (Inr (fs_pathExists (file_path s c filename) (fs s1)), s1))
           | None \<Rightarrow> (Inr False, s))"

definition getFileStats ::
  "(string \<Rightarrow> bool) \<Rightarrow> ContentId option \<Rightarrow> string \<Rightarrow> storage
     \<Rightarrow> (error + IFileStats) \<times> storage" where
  "getFileStats check contentId file s =
     (case fileExists check contentId file s of
        (Inl e, s1) \<Rightarrow> (Inl e, s1)
      | (Inr False, s1) \<Rightarrow> (Inl (H5pError ''content-file-missing'' 404), s1)
      | (Inr True, s1) \<Rightarrow>
          (case contentId of
             None \<Rightarrow> (Inl TypeError, s1)
           | Some c \<Rightarrow>
               (let s2 = log (FsCall Stat (file_path s1 c file)) s1
                in case fs_resolve (file_path s1 c file) (fs s2) of
                     None \<Rightarrow> (Inl FilesystemError, s2)
                   | Some n \<Rightarrow> (Inr (stats_of n), s2))))"

definition getFileStream ::
  "(string \<Rightarrow> bool) \<Rightarrow> ContentId option \<Rightarrow> string \<Rightarrow> nat option \<Rightarrow> nat option
     \<Rightarrow> storage \<Rightarrow> (error + byte list) \<times> storage" where
  "getFileStream check contentId file rangeStart rangeEnd s =
     (case fileExists check contentId file s of
        (Inl e, s1) \<Rightarrow> (Inl e, s1)
      | (Inr False, s1) \<Rightarrow> (Inl (H5pError ''content-file-missing'' 404), s1)
      | (Inr True, s1) \<Rightarrow>
          (case contentId of
             None \<Rightarrow> (Inl TypeError, s1)
           | Some c \<Rightarrow>
               (let s2 = log (FsCall CreateReadStream (file_path s1 c file)) s1
                in (fs_createReadStream (file_path s1 c file) rangeStart rangeEnd (fs s2),
                    s2))))"

definition listFiles :: "ContentId \<Rightarrow> storage \<Rightarrow> (error + string list) \<times> storage" where
  "listFiles c s =
     (let contentDirectoryPath = content_dir s c;
          s1 = log (FsCall Glob contentDirectoryPath) s;
          absolutePaths = fs_glob contentDirectoryPath (fs s1)
      in (Inr (map (\<lambda>p. path_text (path_relative contentDirectoryPath p)) absolutePaths),
          s1))"

subsection \<open>The filename check of the specification\<close>

text \<open>
  Modelled from the spec: \<open>checkFilename\<close> of \<open>filenameUtils\<close>, which is not among the
  sources. It fails if the name contains path-traversal sequences, absolute-path markers
  or disallowed characters, or is empty. The specification does not list the disallowed
  characters; they are the parameter \<open>disallowed\<close>.
\<close>

definition checkFilename :: "(char \<Rightarrow> bool) \<Rightarrow> string \<Rightarrow> bool" where
  "checkFilename disallowed name =
     (case name of
        [] \<Rightarrow> False
      | c # cs \<Rightarrow>
          c \<noteq> CHR ''/'' \<and> ''..'' \<notin> set (split_path name) \<and> \<not> list_ex disallowed name)"

subsection \<open>Well-formed storages\<close>

text \<open>
  The names in a directory are distinct. \<open>PRIMARY KEY (id)\<close> makes the ids of the rows
  distinct, and \<open>AUTO_INCREMENT\<close> keeps the next id above the ids in the table.
\<close>

fun wf_node :: "node \<Rightarrow> bool" where
  "wf_node (File bs) = True"
| "wf_node (Dir es) = (distinct (map fst es) \<and> (\<forall>e\<in>set es. wf_node (snd e)))"

definition table_ok :: "storage \<Rightarrow> bool" where
  "table_ok s =
     (distinct (map row_id (table s)) \<and> (\<forall>r\<in>set (table s). row_id r < auto_increment s))"

text \<open>The metadata documents of the rows, in the order of the table.\<close>

definition stored_metadata :: "(string \<Rightarrow> json option) \<Rightarrow> storage \<Rightarrow> json list" where
  "stored_metadata parse s = List.map_filter (\<lambda>r. parse (row_metadata r)) (table s)"

subsection \<open>Notions for the statements\<close>

text \<open>
  A relative path is matched by the pattern \<open>**/*.*\<close> when its last segment is matched
  by \<open>*.*\<close> and no segment before it begins with a dot.
\<close>

definition matched :: "path \<Rightarrow> bool" where
  "matched rel =
     (rel \<noteq> [] \<and> star_dot_star (last rel) \<and> (\<forall>seg\<in>set (butlast rel). \<not> hidden seg))"

text \<open>The calls and queries a method has added to the trace.\<close>

definition new_calls :: "storage \<Rightarrow> storage \<Rightarrow> event list" where
  "new_calls s s' = drop (length (trace s)) (trace s')"

subsection \<open>Example data\<close>

text \<open>
  A dependency predicate for the examples: the library is named, with its version, in the
  list \<open>preloadedDependencies\<close> of the metadata.
\<close>

fun names_library :: "ILibraryName \<Rightarrow> json \<Rightarrow> bool" where
  "names_library library (JObject props) =
     (map_of props ''machineName'' = Some (JString (machineName library)) \<and>
      map_of props ''majorVersion'' = Some (JNumber (int (majorVersion library))) \<and>
      map_of props ''minorVersion'' = Some (JNumber (int (minorVersion library))))"
| "names_library library doc = False"

fun example_hasDependencyOn :: "json \<Rightarrow> ILibraryName \<Rightarrow> bool" where
  "example_hasDependencyOn (JObject props) library =
     (case map_of props ''preloadedDependencies'' of
        Some (JArray deps) \<Rightarrow> list_ex (names_library library) deps
      | _ \<Rightarrow> False)"
| "example_hasDependencyOn doc library = False"

definition library_json :: "string \<Rightarrow> int \<Rightarrow> int \<Rightarrow> json" where
  "library_json name major minor =
     JObject [(''machineName'', JString name), (''majorVersion'', JNumber major),
              (''minorVersion'', JNumber minor)]"

definition quiz_1_0 :: ILibraryName where
  "quiz_1_0 = \<lparr>machineName = ''H5P.Quiz'', majorVersion = 1, minorVersion = 0\<rparr>"

text \<open>
  Three metadata documents: one made with the library \<open>H5P.Quiz\<close>, one made with another
  library that depends on \<open>H5P.Quiz\<close>, and one that has nothing to do with it. A fourth
  names \<open>H5P.Quiz\<close> as its main library and lists no dependency on it.
\<close>

definition quiz_metadata :: json where
  "quiz_metadata =
     JObject [(''mainLibrary'', JString ''H5P.Quiz''),
              (''preloadedDependencies'', JArray [library_json ''H5P.Quiz'' 1 0])]"

definition column_metadata :: json where
  "column_metadata =
     JObject [(''mainLibrary'', JString ''H5P.Column''),
              (''preloadedDependencies'',
               JArray [library_json ''H5P.Column'' 1 0, library_json ''H5P.Quiz'' 1 0])]"

definition text_metadata :: json where
  "text_metadata =
     JObject [(''mainLibrary'', JString ''H5P.Text''),
              (''preloadedDependencies'', JArray [library_json ''H5P.Text'' 1 0])]"

definition bare_metadata :: json where
  "bare_metadata =
     JObject [(''mainLibrary'', JString ''H5P.Quiz''),
              (''preloadedDependencies'', JArray [])]"

definition example_parameters :: json where
  "example_parameters = JObject [(''question'', JString ''2 + 2''), (''answer'', JNumber 4)]"

text \<open>
  The texts of the example documents. The table stands for \<open>JSON.stringify\<close> and
  \<open>JSON.parse\<close> on these documents; the texts are abridged.
\<close>

definition example_codec :: "(string \<times> json) list" where
  "example_codec =
     [(''{mainLibrary:H5P.Quiz}'', quiz_metadata),
      (''{mainLibrary:H5P.Column}'', column_metadata),
      (''{mainLibrary:H5P.Text}'', text_metadata),
      (''{mainLibrary:H5P.Quiz,preloadedDependencies:[]}'', bare_metadata),
      (''{question:2 + 2,answer:4}'', example_parameters),
      (''null'', JNull)]"

definition example_parse :: "string \<Rightarrow> json option" where
  "example_parse text = map_of example_codec text"

definition example_stringify :: "json \<Rightarrow> string" where
  "example_stringify doc =
     (case find (\<lambda>e. snd e = doc) example_codec of
        Some e \<Rightarrow> fst e
      | None \<Rightarrow> ''null'')"

text \<open>
  The files of content 1: two files with a dot in their names, one of them in a
  subdirectory, and one file without a dot.
\<close>

definition example_tree :: node where
  "example_tree =
     Dir [(''h5p'',
           Dir [(''content'',
                 Dir [(''1'',
                       Dir [(''a.txt'', File [10, 11, 12, 13, 14, 15, 16, 17, 18, 19, 20, 21]),
                            (''README'', File [7]),
                            (''sub'', Dir [(''b.txt'', File [4, 5])])])])])]"

definition example_storage :: storage where
  "example_storage =
     \<lparr>contentPath = ''/h5p/content'', connection_ok = True,
      table =
        [\<lparr>row_id = 1, row_content = ''{question:2 + 2,answer:4}'',
          row_metadata = ''{mainLibrary:H5P.Quiz}''\<rparr>,
         \<lparr>row_id = 2, row_content = ''null'',
          row_metadata = ''{mainLibrary:H5P.Column}''\<rparr>,
         \<lparr>row_id = 3, row_content = ''null'',
          row_metadata = ''{mainLibrary:H5P.Text}''\<rparr>],
      auto_increment = 4, fs = example_tree, trace = []\<rparr>"

definition bare_storage :: storage where
  "bare_storage =
     \<lparr>contentPath = ''/h5p/content'', connection_ok = True,
      table =
        [\<lparr>row_id = 1, row_content = ''null'',
          row_metadata = ''{mainLibrary:H5P.Quiz,preloadedDependencies:[]}''\<rparr>],
      auto_increment = 2, fs = Dir [], trace = []\<rparr>"

lemmas example_defs = example_storage_def bare_storage_def example_parse_def
  example_codec_def quiz_metadata_def column_metadata_def text_metadata_def
  bare_metadata_def example_parameters_def library_json_def quiz_1_0_def example_tree_def
  example_stringify_def

section \<open>Properties\<close>

subsection \<open>Paths\<close>

lemma digit_char_in: "d < 10 \<Longrightarrow> digit_char d \<in> set ''0123456789''"
  unfolding digit_char_def by (rule nth_mem) simp

lemma id_text_digits: "set (id_text n) \<subseteq> set ''0123456789''"
proof (induction n rule: id_text.induct)
  case (1 n)
  show ?case
  proof (cases "n < 10")
    case True
    then show ?thesis using digit_char_in [of n] by (subst id_text.simps) simp
  next
    case False
    have "n mod 10 < 10" by simp
    then have "digit_char (n mod 10) \<in> set ''0123456789''" by (rule digit_char_in)
    with False 1 show ?thesis by (subst id_text.simps) simp
  qed
qed

lemma id_text_nonempty: "id_text n \<noteq> []"
  by (subst id_text.simps) simp

lemma split_path_plain: "CHR ''/'' \<notin> set name \<Longrightarrow> split_path name = [name]"
  by (induction name) auto

lemma split_path_id_text: "split_path (id_text c) = [id_text c]"
  using id_text_digits [of c] by (intro split_path_plain) auto

lemma id_text_proper: "id_text c \<noteq> [] \<and> id_text c \<noteq> ''.'' \<and> id_text c \<noteq> ''..''"
  using id_text_digits [of c] id_text_nonempty [of c] by auto

lemma normalize_acc_append:
  "normalize_acc acc (xs @ ys) = normalize_acc (rev (normalize_acc acc xs)) ys"
  by (induction acc xs rule: normalize_acc.induct) (auto split: list.splits)

lemma normalize_acc_no_dotdot:
  "''..'' \<notin> set segs \<Longrightarrow>
   normalize_acc acc segs = rev acc @ filter (\<lambda>seg. seg \<noteq> [] \<and> seg \<noteq> ''.'') segs"
  by (induction acc segs rule: normalize_acc.induct) auto

lemma split_path_nonempty: "split_path name \<noteq> []"
  by (induction name) (auto split: list.splits)

lemma content_dir_eq:
  "content_dir s c = normalize_acc [] (split_path (contentPath s)) @ [id_text c]"
proof (cases "contentPath s = []")
  case True
  then show ?thesis
    using id_text_proper [of c]
    by (simp add: content_dir_def path_join_def Let_def split_path_id_text)
next
  case False
  then show ?thesis
    using id_text_proper [of c]
    by (simp add: content_dir_def path_join_def Let_def split_path_id_text
        normalize_acc_append normalize_acc_no_dotdot)
qed

lemma content_dir_nonempty: "content_dir s c \<noteq> []"
  by (simp add: content_dir_eq)

lemma content_dir_last: "last (content_dir s c) = id_text c"
  by (simp add: content_dir_eq)

text \<open>The path of a content directory never ends with a separator.\<close>

lemma content_dir_segments:
  "\<not> trailing_separator (content_dir s c)" "path_segments (content_dir s c) = content_dir s c"
  using id_text_proper [of c]
  by (simp_all add: path_segments_def trailing_separator_def content_dir_last)

lemma fs_resolve_content_dir: "fs_resolve (content_dir s c) t = fs_lookup (content_dir s c) t"
  by (simp add: fs_resolve_def content_dir_segments split: option.splits node.splits)

lemma fs_pathExists_content_dir:
  "fs_pathExists (content_dir s c) t = (fs_lookup (content_dir s c) t \<noteq> None)"
  by (simp add: fs_pathExists_def fs_resolve_content_dir)

text \<open>
  The path of a file whose name has no segment \<open>..\<close>: the segments of the name follow
  the content directory, and the separator at the end of the name is kept.
\<close>

lemma file_path_eq:
  assumes "filename \<noteq> []" and "''..'' \<notin> set (split_path filename)"
  shows "file_path s c filename =
     content_dir s c @ filter (\<lambda>seg. seg \<noteq> [] \<and> seg \<noteq> ''.'') (split_path filename) @
       (if last (split_path filename) = [] then [[]] else [])"
proof -
  let ?segs = "concat (map split_path
      (filter (\<lambda>part. part \<noteq> []) [contentPath s, id_text c, filename]))"
  have l: "last ?segs = last (split_path filename)" "?segs \<noteq> []"
    using assms(1) id_text_proper [of c] by (simp_all add: split_path_nonempty)
  have n: "normalize_acc [] ?segs =
      content_dir s c @ filter (\<lambda>seg. seg \<noteq> [] \<and> seg \<noteq> ''.'') (split_path filename)"
  proof (cases "contentPath s = []")
    case True
    then show ?thesis
      unfolding content_dir_eq using assms id_text_proper [of c]
      by (simp add: split_path_id_text normalize_acc_no_dotdot)
  next
    case False
    then show ?thesis
      unfolding content_dir_eq using assms id_text_proper [of c]
      by (simp add: split_path_id_text normalize_acc_append normalize_acc_no_dotdot)
  qed
  then have "normalize_acc [] ?segs \<noteq> []" by (simp add: content_dir_nonempty)
  with l n show ?thesis by (simp add: file_path_def path_join_def Let_def)
qed

text \<open>A name that passes the check of the specification has no segment \<open>..\<close>.\<close>

lemma checkFilename_no_traversal:
  "checkFilename disallowed name \<Longrightarrow> ''..'' \<notin> set (split_path name)"
  by (cases name) (auto simp: checkFilename_def)

lemma checkFilename_nonempty: "checkFilename disallowed name \<Longrightarrow> name \<noteq> []"
  by (cases name) (auto simp: checkFilename_def)

lemma file_path_checked:
  assumes "checkFilename disallowed name"
  shows "path_segments (file_path s c name) =
      content_dir s c @ filter (\<lambda>seg. seg \<noteq> [] \<and> seg \<noteq> ''.'') (split_path name)"
    and "trailing_separator (file_path s c name) = (last (split_path name) = [])"
proof -
  let ?kept = "filter (\<lambda>seg. seg \<noteq> [] \<and> seg \<noteq> ''.'') (split_path name)"
  have eq: "file_path s c name =
      content_dir s c @ ?kept @ (if last (split_path name) = [] then [[]] else [])"
    using assms by (intro file_path_eq checkFilename_nonempty checkFilename_no_traversal)
  have l: "last (content_dir s c @ ?kept) \<noteq> []"
  proof (cases "?kept = []")
    case True
    then show ?thesis
      using id_text_proper [of c] by (simp add: content_dir_last)
  next
    case False
    then have "last ?kept \<in> set ?kept" by (rule last_in_set)
    with False show ?thesis by simp
  qed
  show "path_segments (file_path s c name) = content_dir s c @ ?kept"
    using l unfolding eq
    by (simp add: path_segments_def trailing_separator_def content_dir_nonempty
        butlast_append)
  show "trailing_separator (file_path s c name) = (last (split_path name) = [])"
    using l unfolding eq
    by (simp add: trailing_separator_def content_dir_nonempty)
qed

lemma file_path_nonempty:
  "checkFilename disallowed name \<Longrightarrow> path_segments (file_path s c name) \<noteq> []"
  by (simp add: file_path_checked content_dir_nonempty)

text \<open>The paths of the example storage.\<close>

lemma id_text_1: "id_text (Suc 0) = ''1''"
  by (simp add: id_text.simps digit_char_def)

lemma id_text_5: "id_text 5 = ''5''"
  by (simp add: id_text.simps digit_char_def)

lemma example_content_dir:
  "content_dir example_storage c = [''h5p'', ''content'', id_text c]"
  by (simp add: content_dir_eq example_storage_def)

lemma example_file_path:
  assumes "name \<noteq> []"
  shows "file_path example_storage c name =
     (if last (split_path name) = [] \<and>
         normalize_acc [id_text c, ''content'', ''h5p''] (split_path name) \<noteq> []
      then normalize_acc [id_text c, ''content'', ''h5p''] (split_path name) @ [[]]
      else normalize_acc [id_text c, ''content'', ''h5p''] (split_path name))"
  using assms id_text_proper [of c]
  by (simp add: file_path_def path_join_def Let_def example_storage_def split_path_id_text
      split_path_nonempty)

subsection \<open>The file tree\<close>

lemma map_of_filter_fst: "map_of (filter (\<lambda>e. fst e \<noteq> seg) es) seg = None"
  by (induction es) auto

lemma map_of_map_entry:
  "map_of (map (\<lambda>e. if fst e = seg then (fst e, f (snd e)) else e) es) seg
     = map_option f (map_of es seg)"
  by (induction es) auto

lemma fs_lookup_remove: "p \<noteq> [] \<Longrightarrow> fs_lookup p (remove_entry p t) = None"
proof (induction p t rule: remove_entry.induct)
  case (5 seg v va es)
  show ?case
  proof (cases "map_of es seg")
    case None
    then show ?thesis by (simp add: map_of_map_entry)
  next
    case (Some a)
    then have "(seg, a) \<in> set es" by (rule map_of_SomeD)
    with 5 have "fs_lookup (v # va) (remove_entry (v # va) a) = None" by fastforce
    with Some show ?thesis by (simp add: map_of_map_entry)
  qed
qed (simp_all add: map_of_filter_fst)

lemma fs_pathExists_remove:
  "path_segments p \<noteq> [] \<Longrightarrow> \<not> fs_pathExists p (fs_remove p t)"
  by (simp add: fs_remove_def fs_pathExists_def fs_resolve_def fs_lookup_remove)

lemmas fs_eval = fs_pathExists_def fs_resolve_def fs_remove_def fs_ensureDir_def
  fs_writeFile_def path_segments_def trailing_separator_def path_dirname_def

lemma fs_lookup_append:
  "fs_lookup (p @ q) t = (case fs_lookup p t of None \<Rightarrow> None | Some n \<Rightarrow> fs_lookup q n)"
proof (induction p t rule: fs_lookup.induct)
  case (1 n)
  then show ?case by simp
next
  case (2 seg p bs)
  then show ?case by simp
next
  case (3 seg p es)
  then show ?case by (cases "map_of es seg") simp_all
qed

lemma wf_node_lookup: "wf_node t \<Longrightarrow> fs_lookup p t = Some n \<Longrightarrow> wf_node n"
proof (induction p t rule: fs_lookup.induct)
  case (3 seg p es)
  from "3.prems"(2) obtain c where c: "map_of es seg = Some c" "fs_lookup p c = Some n"
    by (auto split: option.splits)
  then have "(seg, c) \<in> set es" by (auto dest: map_of_SomeD)
  with "3.prems"(1) have "wf_node c" by auto
  with 3 c show ?case by simp
qed simp_all

lemma fs_glob_missing: "fs_lookup dir t = None \<Longrightarrow> fs_glob dir t = []"
  by (simp add: fs_glob_def)

subsection \<open>The glob pattern\<close>

lemma path_relative_append: "path_relative dir (dir @ rel) = rel"
proof (induction dir)
  case Nil
  then show ?case by (cases rel) simp_all
next
  case (Cons a dir)
  then show ?case by simp
qed

lemma matched_single: "matched [name] = star_dot_star name"
  by (simp add: matched_def)

lemma matched_Cons: "q \<noteq> [] \<Longrightarrow> matched (name # q) = (\<not> hidden name \<and> matched q)"
  by (auto simp: matched_def)

lemma fs_lookup_file_Cons: "fs_lookup q (File bs) = Some n \<Longrightarrow> q = []"
  by (cases q) simp_all

text \<open>Every file that the pattern matches is found.\<close>

lemma glob_entries_complete:
  "matched rel \<Longrightarrow> fs_lookup rel (Dir es) = Some (File bs) \<Longrightarrow>
   dir @ rel \<in> set (glob_entries dir es)"
proof (induction dir es arbitrary: rel rule: glob_entries.induct)
  case (1 dir)
  then show ?case by (cases rel) (simp_all add: matched_def)
next
  case (2 dir name fbs es)
  from "2.prems"(1) obtain seg q where rel: "rel = seg # q" by (cases rel) (auto simp: matched_def)
  show ?case
  proof (cases "seg = name")
    case True
    with "2.prems"(2) rel have "q = []" by (auto dest: fs_lookup_file_Cons)
    with True rel "2.prems"(1) show ?thesis by (simp add: matched_single)
  next
    case False
    with "2.prems"(2) rel have "fs_lookup rel (Dir es) = Some (File bs)" by simp
    with "2.IH" "2.prems"(1) show ?thesis by simp
  qed
next
  case (3 dir name ds es)
  from "3.prems"(1) obtain seg q where rel: "rel = seg # q" by (cases rel) (auto simp: matched_def)
  show ?case
  proof (cases "seg = name")
    case True
    with "3.prems"(2) rel have q: "fs_lookup q (Dir ds) = Some (File bs)" by simp
    then have "q \<noteq> []" by auto
    with "3.prems"(1) rel True have nh: "\<not> hidden name" and mq: "matched q"
      by (simp_all add: matched_Cons)
    from "3.IH"(1) [OF nh mq q] have "(dir @ [name]) @ q \<in> set (glob_entries (dir @ [name]) ds)" .
    with nh rel True show ?thesis by simp
  next
    case False
    with "3.prems"(2) rel have "fs_lookup rel (Dir es) = Some (File bs)" by simp
    with "3.IH"(2) "3.prems"(1) show ?thesis by simp
  qed
qed

lemma fs_lookup_Dir_Cons_other:
  assumes "name \<notin> fst ` set es" and "rel \<noteq> []" and "fs_lookup rel (Dir es) = Some n"
  shows "fs_lookup rel (Dir ((name, c) # es)) = Some n"
proof -
  from assms(2) obtain seg q where rel: "rel = seg # q" by (cases rel) auto
  with assms(3) have "map_of es seg \<noteq> None" by (auto split: option.splits)
  then have "seg \<in> fst ` set es" by (auto simp: map_of_eq_None_iff)
  with assms(1) have "seg \<noteq> name" by auto
  with rel assms(3) show ?thesis by simp
qed

text \<open>Where names are distinct, only files that the pattern matches are found.\<close>

lemma glob_entries_sound:
  "wf_node (Dir es) \<Longrightarrow> p \<in> set (glob_entries dir es) \<Longrightarrow>
   \<exists>rel bs. p = dir @ rel \<and> matched rel \<and> fs_lookup rel (Dir es) = Some (File bs)"
proof (induction dir es arbitrary: p rule: glob_entries.induct)
  case (1 dir)
  then show ?case by simp
next
  case (2 dir name fbs es)
  from "2.prems"(1) have fresh: "name \<notin> fst ` set es" and wf: "wf_node (Dir es)" by auto
  from "2.prems"(2) consider "star_dot_star name" "p = dir @ [name]"
    | "p \<in> set (glob_entries dir es)"
    by (auto split: if_splits)
  then show ?case
  proof cases
    case 1
    then have "p = dir @ [name] \<and> matched [name] \<and>
        fs_lookup [name] (Dir ((name, File fbs) # es)) = Some (File fbs)"
      by (simp add: matched_single)
    then show ?thesis by blast
  next
    case 2
    from "2.IH" [OF wf 2] obtain rel bs where r: "p = dir @ rel" "matched rel"
      "fs_lookup rel (Dir es) = Some (File bs)" by blast
    from r(2) have "rel \<noteq> []" by (simp add: matched_def)
    from fs_lookup_Dir_Cons_other [OF fresh this r(3)] r show ?thesis by blast
  qed
next
  case (3 dir name ds es)
  from "3.prems"(1) have fresh: "name \<notin> fst ` set es" and wf: "wf_node (Dir es)"
    and wfd: "wf_node (Dir ds)" by auto
  from "3.prems"(2) consider "\<not> hidden name" "p \<in> set (glob_entries (dir @ [name]) ds)"
    | "p \<in> set (glob_entries dir es)"
    by (auto split: if_splits)
  then show ?case
  proof cases
    case 1
    from "3.IH"(1) [OF 1(1) wfd 1(2)] obtain rel bs where r: "p = (dir @ [name]) @ rel"
      "matched rel" "fs_lookup rel (Dir ds) = Some (File bs)" by blast
    from r(2) have ne: "rel \<noteq> []" by (simp add: matched_def)
    have "p = dir @ (name # rel)" using r(1) by simp
    moreover have "matched (name # rel)" using 1(1) r(2) ne by (simp add: matched_Cons)
    moreover have "fs_lookup (name # rel) (Dir ((name, Dir ds) # es)) = Some (File bs)"
      using r(3) by simp
    ultimately show ?thesis by blast
  next
    case 2
    from "3.IH"(2) [OF wf 2] obtain rel bs where r: "p = dir @ rel" "matched rel"
      "fs_lookup rel (Dir es) = Some (File bs)" by blast
    from r(2) have "rel \<noteq> []" by (simp add: matched_def)
    from fs_lookup_Dir_Cons_other [OF fresh this r(3)] r show ?thesis by blast
  qed
qed

lemma fs_glob_set:
  assumes "wf_node t"
  shows "set (fs_glob dir t) =
     {dir @ rel | rel. matched rel \<and> (\<exists>bs. fs_lookup (dir @ rel) t = Some (File bs))}"
proof (cases "fs_lookup dir t")
  case None
  then show ?thesis by (simp add: fs_glob_def fs_lookup_append)
next
  case (Some n)
  show ?thesis
  proof (cases n)
    case (File fbs)
    have "\<not> (matched rel \<and> (\<exists>bs. fs_lookup rel (File fbs) = Some (File bs)))" for rel
      by (cases rel) (simp_all add: matched_def)
    with Some File show ?thesis by (simp add: fs_glob_def fs_lookup_append)
  next
    case (Dir es)
    from Some Dir have "fs_lookup dir t = Some (Dir es)" by simp
    with assms have wf: "wf_node (Dir es)" by (rule wf_node_lookup)
    have "set (glob_entries dir es) =
        {dir @ rel | rel. matched rel \<and> (\<exists>bs. fs_lookup rel (Dir es) = Some (File bs))}"
      using glob_entries_sound [OF wf] glob_entries_complete by blast
    with Some Dir show ?thesis by (simp add: fs_glob_def fs_lookup_append)
  qed
qed

subsection \<open>The trace and the table\<close>

lemma log_simps [simp]:
  "contentPath (log e s) = contentPath s"
  "connection_ok (log e s) = connection_ok s"
  "table (log e s) = table s"
  "auto_increment (log e s) = auto_increment s"
  "fs (log e s) = fs s"
  "trace (log e s) = trace s @ [e]"
  by (simp_all add: log_def)

lemma select_id_log [simp]: "select_id c (log e s) = select_id c s"
  by (simp add: select_id_def)

lemma select_id_distinct:
  "distinct (map row_id rows) \<Longrightarrow> r \<in> set rows \<Longrightarrow>
   filter (\<lambda>r'. row_id r' = row_id r) rows = [r]"
proof (induction rows)
  case Nil
  then show ?case by simp
next
  case (Cons a rows)
  show ?case
  proof (cases "a = r")
    case True
    with Cons.prems have "\<forall>r'\<in>set rows. row_id r' \<noteq> row_id r" by (auto simp: image_iff)
    then have "filter (\<lambda>r'. row_id r' = row_id r) rows = []" by (simp add: filter_empty_conv)
    with True show ?thesis by simp
  next
    case False
    with Cons.prems have "r \<in> set rows" "row_id a \<noteq> row_id r" by auto
    with Cons show ?thesis by simp
  qed
qed

lemma file_path_log [simp]: "file_path (log e s) c f = file_path s c f"
  by (simp add: file_path_def)

lemma content_dir_log [simp]: "content_dir (log e s) c = content_dir s c"
  by (simp add: content_dir_def)

lemma new_calls_same [simp]: "new_calls s s = []"
  by (simp add: new_calls_def)

lemma new_calls_trace: "trace s' = trace s @ evs \<Longrightarrow> new_calls s s' = evs"
  by (simp add: new_calls_def)

text \<open>
  The invariant of the table holds in the empty table and is kept by the methods that
  write to it.
\<close>

lemma table_ok_init: "table_ok (init root t)"
  by (simp add: table_ok_def init_def)

lemma table_ok_addContent:
  assumes "table_ok s"
  shows "table_ok (snd (addContent stringify metadata content contentId s))"
proof (cases contentId)
  case None
  then show ?thesis
    using assms by (auto simp: addContent_def Let_def table_ok_def less_Suc_eq)
next
  case (Some c)
  have ids: "row_id \<circ> (\<lambda>r. if row_id r = c then r\<lparr>row_metadata := a, row_content := b\<rparr> else r)
        = row_id" for a b
    by (rule ext) simp
  from Some show ?thesis
    using assms by (auto simp: addContent_def Let_def table_ok_def ids)
qed

lemma table_ok_deleteContent:
  "table_ok s \<Longrightarrow> table_ok (snd (deleteContent c s))"
  by (auto simp: deleteContent_def deleteContent_query_def deleteContent_files_def Let_def
      table_ok_def distinct_map_filter)

subsection \<open>Usage statistics\<close>

lemma getMetadata_row:
  "connection_ok s \<Longrightarrow> select_id c s = r # rs \<Longrightarrow> parse (row_metadata r) = Some d \<Longrightarrow>
   getMetadata parse c s = (Inr d, log (DbQuery (SelectMetadata c)) s)"
  by (simp add: getMetadata_def Let_def)

text \<open>
  The loop adds to its counters the number of documents that pass the dependency
  predicate, split by whether their main library is the one asked for.
\<close>

lemma getUsage_loop_rows:
  assumes "connection_ok s"
    and "\<forall>r\<in>set rs. select_id (row_id r) s = [r]"
    and "\<forall>r\<in>set rs. \<exists>d. parse (row_metadata r) = Some d \<and> d \<noteq> JNull"
  shows "fst (getUsage_loop hasDep parse lib (map row_id rs) a m s) =
     Inr \<lparr>asDependency =
            a + length (filter (\<lambda>d. hasDep d lib \<and> isMainLibrary d (machineName lib) \<noteq> Inr True)
                          (List.map_filter (\<lambda>r. parse (row_metadata r)) rs)),
          asMainLibrary =
            m + length (filter (\<lambda>d. hasDep d lib \<and> isMainLibrary d (machineName lib) = Inr True)
                          (List.map_filter (\<lambda>r. parse (row_metadata r)) rs))\<rparr>"
  using assms
proof (induction rs arbitrary: a m s)
  case Nil
  then show ?case by simp
next
  case (Cons r rs)
  from Cons.prems obtain d where d: "parse (row_metadata r) = Some d" "d \<noteq> JNull" by auto
  from Cons.prems have sel: "select_id (row_id r) s = [r]" by simp
  let ?s1 = "log (DbQuery (SelectMetadata (row_id r))) s"
  have gm: "getMetadata parse (row_id r) s = (Inr d, ?s1)"
    using Cons.prems(1) sel d(1) by (rule getMetadata_row)
  obtain b where b: "isMainLibrary d (machineName lib) = Inr b"
    using d(2) by (cases d) auto
  have ok: "connection_ok ?s1" using Cons.prems(1) by simp
  have sels: "\<forall>r\<in>set rs. select_id (row_id r) ?s1 = [r]" using Cons.prems(2) by simp
  have ps: "\<forall>r\<in>set rs. \<exists>d. parse (row_metadata r) = Some d \<and> d \<noteq> JNull"
    using Cons.prems(3) by simp
  note IH = Cons.IH [OF ok sels ps]
  show ?case
    using gm b d(1) IH by simp
qed

text \<open>
  Claim C1, as the code has it. \<open>getUsage\<close> counts a content object only if
  \<open>hasDependencyOn\<close> holds for its metadata: such an object adds one to \<open>asMainLibrary\<close>
  when its \<open>mainLibrary\<close> is the machine name of the library, and one to \<open>asDependency\<close>
  otherwise. An object for which the predicate fails is not counted, whatever its main
  library is. The table has distinct ids, the connection answers, and every metadata text
  parses to a document other than \<open>null\<close>.
\<close>

theorem getUsage_counts:
  assumes "connection_ok s"
    and "distinct (map row_id (table s))"
    and "\<forall>r\<in>set (table s). \<exists>d. parse (row_metadata r) = Some d \<and> d \<noteq> JNull"
  shows "fst (getUsage hasDependencyOn parse library s) =
     Inr \<lparr>asDependency =
            length (filter (\<lambda>d. hasDependencyOn d library \<and>
                                 isMainLibrary d (machineName library) \<noteq> Inr True)
                      (stored_metadata parse s)),
          asMainLibrary =
            length (filter (\<lambda>d. hasDependencyOn d library \<and>
                                 isMainLibrary d (machineName library) = Inr True)
                      (stored_metadata parse s))\<rparr>"
proof -
  let ?s1 = "log (DbQuery SelectIds) s"
  have ok: "connection_ok ?s1" using assms(1) by simp
  have sels: "\<forall>r\<in>set (table s). select_id (row_id r) ?s1 = [r]"
    using select_id_distinct [OF assms(2)] by (simp add: select_id_def)
  have "getUsage hasDependencyOn parse library s =
      getUsage_loop hasDependencyOn parse library (map row_id (table s)) 0 0 ?s1"
    using assms(1) by (simp add: getUsage_def listContent_def Let_def)
  then show ?thesis
    using getUsage_loop_rows [OF ok sels assms(3), of hasDependencyOn library 0 0]
    by (simp add: stored_metadata_def)
qed

text \<open>
  The three documents of the example give one main use and one use as a dependency.
\<close>

theorem getUsage_counts_witness:
  "connection_ok example_storage \<and> distinct (map row_id (table example_storage)) \<and>
   stored_metadata example_parse example_storage =
     [quiz_metadata, column_metadata, text_metadata] \<and>
   fst (getUsage example_hasDependencyOn example_parse quiz_1_0 example_storage) =
     Inr \<lparr>asDependency = 1, asMainLibrary = 1\<rparr>"
proof -
  have h1: "connection_ok example_storage" by (simp add: example_defs)
  have h2: "distinct (map row_id (table example_storage))" by (simp add: example_defs)
  have h3: "\<forall>r\<in>set (table example_storage).
      \<exists>d. example_parse (row_metadata r) = Some d \<and> d \<noteq> JNull"
    by (simp add: example_defs)
  have h4: "stored_metadata example_parse example_storage =
      [quiz_metadata, column_metadata, text_metadata]"
    by (simp add: example_defs stored_metadata_def)
  then show ?thesis
    using h1 h2 h3 getUsage_counts [OF h1 h2 h3, of example_hasDependencyOn quiz_1_0]
    by (simp add: quiz_metadata_def column_metadata_def text_metadata_def library_json_def
        quiz_1_0_def)
qed

text \<open>
  The claim as written counts every object whose \<open>mainLibrary\<close> is the library. The only
  row of \<open>bare_storage\<close> has \<open>H5P.Quiz\<close> as its main library, and \<open>getUsage\<close> counts
  nothing, since the dependency predicate fails for it.
\<close>

theorem getUsage_main_counterexample:
  "stored_metadata example_parse bare_storage = [bare_metadata] \<and>
   isMainLibrary bare_metadata (machineName quiz_1_0) = Inr True \<and>
   fst (getUsage example_hasDependencyOn example_parse quiz_1_0 bare_storage) =
     Inr \<lparr>asDependency = 0, asMainLibrary = 0\<rparr>"
  by (simp add: example_defs stored_metadata_def getUsage_def listContent_def
      getMetadata_def select_id_def Let_def)

subsection \<open>Listing the files\<close>

text \<open>
  Claim C2, as the code has it. In a file tree with distinct names, \<open>listFiles\<close> returns
  the relative paths of exactly those files under the directory of the content object
  whose name has a dot in it and does not begin with one, and which lie in no directory
  whose name begins with a dot. These are files in the directory itself and in nested
  directories; no directory is returned, and no file without a dot in its name.
\<close>

theorem listFiles_dotted_files:
  assumes "wf_node (fs s)"
  shows "\<exists>names. fst (listFiles c s) = Inr names \<and>
           set names =
             {path_text rel | rel.
                rel \<noteq> [] \<and>
                (\<exists>bs. fs_lookup (content_dir s c @ rel) (fs s) = Some (File bs)) \<and>
                star_dot_star (last rel) \<and>
                (\<forall>seg\<in>set (butlast rel). \<not> hidden seg)}"
proof -
  let ?dir = "content_dir s c"
  have "fst (listFiles c s) =
      Inr (map (\<lambda>p. path_text (path_relative ?dir p)) (fs_glob ?dir (fs s)))"
    by (simp add: listFiles_def Let_def)
  moreover have "set (map (\<lambda>p. path_text (path_relative ?dir p)) (fs_glob ?dir (fs s))) =
      {path_text rel | rel.
                rel \<noteq> [] \<and>
                (\<exists>bs. fs_lookup (?dir @ rel) (fs s) = Some (File bs)) \<and>
                star_dot_star (last rel) \<and>
                (\<forall>seg\<in>set (butlast rel). \<not> hidden seg)}"
    (is "?L = ?R")
  proof
    show "?L \<subseteq> ?R"
      unfolding set_map fs_glob_set [OF assms]
      by (auto simp: matched_def path_relative_append)
    show "?R \<subseteq> ?L"
    proof
      fix x assume "x \<in> ?R"
      then obtain rel bs where r: "x = path_text rel" "rel \<noteq> []"
        "fs_lookup (?dir @ rel) (fs s) = Some (File bs)" "star_dot_star (last rel)"
        "\<forall>seg\<in>set (butlast rel). \<not> hidden seg" by blast
      then have "?dir @ rel \<in> set (fs_glob ?dir (fs s))"
        unfolding fs_glob_set [OF assms] by (auto simp: matched_def)
      then have "path_text (path_relative ?dir (?dir @ rel)) \<in> ?L"
        unfolding set_map by (rule imageI)
      with r(1) show "x \<in> ?L" by (simp add: path_relative_append)
    qed
  qed
  ultimately show ?thesis by simp
qed

text \<open>
  In the example the two files with a dot are listed, the one in the subdirectory with its
  relative path.
\<close>

theorem listFiles_dotted_files_witness:
  "fst (listFiles 1 example_storage) = Inr [''a.txt'', ''sub/b.txt''] \<and>
   set [''a.txt'', ''sub/b.txt''] =
     {path_text rel | rel.
        rel \<noteq> [] \<and>
        (\<exists>bs. fs_lookup (content_dir example_storage 1 @ rel) (fs example_storage)
                = Some (File bs)) \<and>
        star_dot_star (last rel) \<and>
        (\<forall>seg\<in>set (butlast rel). \<not> hidden seg)}"
proof -
  have h: "wf_node (fs example_storage)"
    by (simp add: example_storage_def example_tree_def)
  have l: "fst (listFiles 1 example_storage) = Inr [''a.txt'', ''sub/b.txt'']"
    by (simp add: listFiles_def Let_def example_content_dir id_text_1 fs_glob_def)
      (simp add: example_storage_def example_tree_def star_dot_star_def hidden_def)
  from listFiles_dotted_files [OF h, of 1] l show ?thesis by auto
qed

text \<open>
  The claim as written has every file listed. \<open>README\<close> is a file of content 1 and is not
  in the list.
\<close>

theorem listFiles_all_files_counterexample:
  "fs_lookup (content_dir example_storage 1 @ [''README'']) (fs example_storage)
     = Some (File [7]) \<and>
   fst (listFiles 1 example_storage) = Inr [''a.txt'', ''sub/b.txt''] \<and>
   ''README'' \<notin> set [''a.txt'', ''sub/b.txt'']"
proof -
  have l: "fst (listFiles 1 example_storage) = Inr [''a.txt'', ''sub/b.txt'']"
    by (simp add: listFiles_def Let_def example_content_dir id_text_1 fs_glob_def)
      (simp add: example_storage_def example_tree_def star_dot_star_def hidden_def)
  have f: "fs_lookup (content_dir example_storage 1 @ [''README'']) (fs example_storage)
     = Some (File [7])"
    by (simp add: example_content_dir id_text_1) (simp add: example_storage_def example_tree_def)
  from l f show ?thesis by simp
qed

subsection \<open>Deleting a content object\<close>

lemma deleteContent_files_facts:
  "contentPath (deleteContent_files c s) = contentPath s"
  "connection_ok (deleteContent_files c s) = connection_ok s"
  "table (deleteContent_files c s) = table s"
  "auto_increment (deleteContent_files c s) = auto_increment s"
  "\<not> fs_pathExists (content_dir s c) (fs (deleteContent_files c s))"
  "trace (deleteContent_files c s) =
     trace s @ (if fs_pathExists (content_dir s c) (fs s)
                then [FsCall PathExists (content_dir s c), FsCall Remove (content_dir s c)]
                else [FsCall PathExists (content_dir s c)])"
  "\<not> fs_pathExists (content_dir s c) (fs s) \<Longrightarrow> fs (deleteContent_files c s) = fs s"
  by (simp_all add: deleteContent_files_def Let_def fs_pathExists_remove
      content_dir_segments content_dir_nonempty)

lemma deleteContent_query_facts:
  "contentPath (deleteContent_query c s) = contentPath s"
  "connection_ok (deleteContent_query c s) = connection_ok s"
  "fs (deleteContent_query c s) = fs s"
  "trace (deleteContent_query c s) = trace s @ [DbQuery (Delete c)]"
  "table (deleteContent_query c s) =
     (if connection_ok s then filter (\<lambda>r. row_id r \<noteq> c) (table s) else table s)"
  by (simp_all add: deleteContent_query_def Let_def)

text \<open>
  Claim C3. \<open>deleteContent\<close> first runs its calls of the file system and then issues the
  \<open>DELETE\<close> query. In the storage between the two, which is the one the query is issued
  in, the directory of the content object does not exist and the table is still the one
  from before the call. The query is the last entry of the trace and does not change the
  file tree.
\<close>

theorem deleteContent_files_then_row:
  "fst (deleteContent c s) = Inr () \<and>
   trace (deleteContent_files c s) =
     trace s @ (if fs_pathExists (content_dir s c) (fs s)
                then [FsCall PathExists (content_dir s c), FsCall Remove (content_dir s c)]
                else [FsCall PathExists (content_dir s c)]) \<and>
   \<not> fs_pathExists (content_dir s c) (fs (deleteContent_files c s)) \<and>
   table (deleteContent_files c s) = table s \<and>
   trace (snd (deleteContent c s)) = trace (deleteContent_files c s) @ [DbQuery (Delete c)] \<and>
   fs (snd (deleteContent c s)) = fs (deleteContent_files c s) \<and>
   table (snd (deleteContent c s)) =
     (if connection_ok s then filter (\<lambda>r. row_id r \<noteq> c) (table s) else table s)"
  by (simp add: deleteContent_def deleteContent_files_facts deleteContent_query_facts)

text \<open>
  In the example the directory of content 1 is gone while the table still has its three
  rows; the query comes last and removes the row.
\<close>

theorem deleteContent_files_then_row_witness:
  "trace (snd (deleteContent 1 example_storage)) =
     [FsCall PathExists [''h5p'', ''content'', ''1''],
      FsCall Remove [''h5p'', ''content'', ''1''], DbQuery (Delete 1)] \<and>
   fs (deleteContent_files 1 example_storage) = Dir [(''h5p'', Dir [(''content'', Dir [])])] \<and>
   map row_id (table (deleteContent_files 1 example_storage)) = [1, 2, 3] \<and>
   map row_id (table (snd (deleteContent 1 example_storage))) = [2, 3]"
proof -
  have d: "content_dir example_storage 1 = [''h5p'', ''content'', ''1'']"
    by (simp add: example_content_dir id_text_1)
  have e: "fs_pathExists [''h5p'', ''content'', ''1''] (fs example_storage)"
    by (simp add: fs_eval example_storage_def example_tree_def)
  have r: "fs_remove [''h5p'', ''content'', ''1''] (fs example_storage)
      = Dir [(''h5p'', Dir [(''content'', Dir [])])]"
    by (simp add: fs_eval example_storage_def example_tree_def)
  have f: "fs (deleteContent_files 1 example_storage)
      = Dir [(''h5p'', Dir [(''content'', Dir [])])]"
    using d e r by (simp add: deleteContent_files_def Let_def example_content_dir id_text_1)
  have t: "map row_id (table example_storage) = [1, 2, 3]" "trace example_storage = []"
    "connection_ok example_storage"
    "map row_id (filter (\<lambda>r. row_id r \<noteq> 1) (table example_storage)) = [2, 3]"
    by (simp_all add: example_storage_def)
  from deleteContent_files_then_row [of 1 example_storage] d e f t
  show ?thesis by simp
qed

text \<open>
  Claim C4. With a connection that answers, \<open>deleteContent\<close> succeeds twice in a row for
  any content id, the second call changes neither the files nor the table, and afterwards
  \<open>contentExists\<close> is false and \<open>listFiles\<close> is empty.
\<close>

theorem deleteContent_twice:
  assumes "connection_ok s"
  shows "\<exists>s1 s2. deleteContent c s = (Inr (), s1) \<and> deleteContent c s1 = (Inr (), s2) \<and>
           fs s2 = fs s1 \<and> table s2 = table s1 \<and>
           fst (contentExists c s2) = Inr False \<and>
           fst (listFiles c s2) = Inr []"
proof -
  let ?f1 = "deleteContent_files c s"
  let ?s1 = "deleteContent_query c ?f1"
  let ?f2 = "deleteContent_files c ?s1"
  let ?s2 = "deleteContent_query c ?f2"
  have dir1: "content_dir ?s1 c = content_dir s c"
    by (simp add: content_dir_def deleteContent_files_facts deleteContent_query_facts)
  have dir2: "content_dir ?s2 c = content_dir s c"
    by (simp add: content_dir_def deleteContent_files_facts deleteContent_query_facts)
  have gone1: "\<not> fs_pathExists (content_dir s c) (fs ?s1)"
    by (simp add: deleteContent_files_facts deleteContent_query_facts)
  then have fs2: "fs ?s2 = fs ?s1"
    using deleteContent_files_facts(7) [of ?s1 c]
    by (simp add: deleteContent_query_facts dir1)
  have ok: "connection_ok ?s1" "connection_ok ?s2"
    using assms by (simp_all add: deleteContent_files_facts deleteContent_query_facts)
  have t1: "table ?s1 = filter (\<lambda>r. row_id r \<noteq> c) (table s)"
    using assms by (simp add: deleteContent_files_facts deleteContent_query_facts)
  have t2: "table ?s2 = table ?s1"
    using assms by (simp add: deleteContent_files_facts deleteContent_query_facts)
  have ex: "fst (contentExists c ?s2) = Inr False"
    using ok(2) by (simp add: contentExists_def Let_def select_id_def t2 t1)
  have "fs_lookup (content_dir s c) (fs ?s2) = None"
    using gone1 fs2 by (simp add: fs_pathExists_content_dir)
  then have ls: "fst (listFiles c ?s2) = Inr []"
    by (simp add: listFiles_def Let_def dir2 fs_glob_missing)
  show ?thesis
    using fs2 t2 ex ls by (simp add: deleteContent_def)
qed

theorem deleteContent_twice_witness:
  "fst (deleteContent 1 example_storage) = Inr () \<and>
   fst (deleteContent 1 (snd (deleteContent 1 example_storage))) = Inr () \<and>
   fst (contentExists 1 (snd (deleteContent 1 (snd (deleteContent 1 example_storage)))))
     = Inr False \<and>
   fst (listFiles 1 (snd (deleteContent 1 (snd (deleteContent 1 example_storage)))))
     = Inr []"
proof -
  have h: "connection_ok example_storage" by (simp add: example_storage_def)
  from deleteContent_twice [OF h, of 1] show ?thesis by auto
qed

subsection \<open>Adding and reading back\<close>

text \<open>
  Claim C5. A document is valid when \<open>JSON.parse\<close> reads the text that
  \<open>JSON.stringify\<close> writes for it back as the same document. For valid metadata and
  parameters, with a connection that answers and a table whose ids lie below the next
  value of \<open>AUTO_INCREMENT\<close>, \<open>addContent\<close> without a content id returns an id under
  which \<open>getMetadata\<close> returns the metadata and \<open>getParameters\<close> the parameters.
\<close>

theorem addContent_round_trip:
  assumes "connection_ok s" and "table_ok s"
    and "parse (stringify metadata) = Some metadata"
    and "parse (stringify content) = Some content"
  shows "\<exists>c s1. addContent stringify metadata content None s = (Inr c, s1) \<and>
           fst (getMetadata parse c s1) = Inr metadata \<and>
           fst (getParameters parse c s1) = Inr content"
proof -
  let ?c = "auto_increment s"
  let ?r = "\<lparr>row_id = ?c, row_content = stringify content,
             row_metadata = stringify metadata\<rparr>"
  let ?s1 = "(log (DbQuery Insert) s)\<lparr>table := table s @ [?r], auto_increment := Suc ?c\<rparr>"
  have a: "addContent stringify metadata content None s = (Inr ?c, ?s1)"
    using assms(1) by (simp add: addContent_def Let_def)
  from assms(2) have "\<forall>r\<in>set (table s). row_id r \<noteq> ?c"
    by (auto simp: table_ok_def)
  then have "filter (\<lambda>r. row_id r = ?c) (table s) = []"
    by (simp add: filter_empty_conv)
  then have sel: "select_id ?c ?s1 = [?r]" by (simp add: select_id_def)
  have ok: "connection_ok ?s1" using assms(1) by simp
  have m: "fst (getMetadata parse ?c ?s1) = Inr metadata"
    unfolding getMetadata_def Let_def using ok sel assms(3) by simp
  have p: "fst (getParameters parse ?c ?s1) = Inr content"
    unfolding getParameters_def Let_def using ok sel assms(4) by simp
  from a m p show ?thesis by blast
qed

theorem addContent_round_trip_witness:
  "fst (addContent example_stringify quiz_metadata example_parameters None example_storage)
     = Inr 4 \<and>
   fst (getMetadata example_parse 4
         (snd (addContent example_stringify quiz_metadata example_parameters None
                 example_storage))) = Inr quiz_metadata \<and>
   fst (getParameters example_parse 4
         (snd (addContent example_stringify quiz_metadata example_parameters None
                 example_storage))) = Inr example_parameters"
proof -
  have h1: "connection_ok example_storage" by (simp add: example_defs)
  have h2: "table_ok example_storage" by (simp add: example_defs table_ok_def)
  have h3: "example_parse (example_stringify quiz_metadata) = Some quiz_metadata"
    by (simp add: example_defs)
  have h4: "example_parse (example_stringify example_parameters) = Some example_parameters"
    by (simp add: example_defs)
  have id: "fst (addContent example_stringify quiz_metadata example_parameters None
      example_storage) = Inr 4"
    by (simp add: addContent_def Let_def example_storage_def)
  from addContent_round_trip [OF h1 h2 h3 h4] id show ?thesis by auto
qed

text \<open>
  Claim C10. When \<open>addContent\<close> is given a content id that no row has, it returns that
  id and leaves the table as it was: \<open>contentExists\<close> is still false for the id, and
  \<open>listContent\<close> does not have it.
\<close>

theorem addContent_update_missing:
  assumes "connection_ok s" and "select_id c s = []"
  shows "\<exists>s1. addContent stringify metadata content (Some c) s = (Inr c, s1) \<and>
           table s1 = table s \<and>
           fst (contentExists c s1) = Inr False \<and>
           (\<exists>ids. fst (listContent s1) = Inr ids \<and> c \<notin> set ids)"
proof -
  from assms(2) have no: "\<forall>r\<in>set (table s). row_id r \<noteq> c"
    by (simp add: select_id_def filter_empty_conv)
  then have same: "map (\<lambda>r. if row_id r = c
                        then r\<lparr>row_metadata := stringify metadata,
                                row_content := stringify content\<rparr>
                        else r) (table s) = table s"
    by (simp add: map_idI)
  let ?s1 = "(log (DbQuery (Update c)) s)\<lparr>table := table s\<rparr>"
  have a: "addContent stringify metadata content (Some c) s = (Inr c, ?s1)"
    using assms(1) same by (simp add: addContent_def Let_def)
  have b: "fst (contentExists c ?s1) = Inr False"
    using assms by (simp add: contentExists_def Let_def select_id_def)
  have c: "fst (listContent ?s1) = Inr (map row_id (table s))"
    using assms(1) by (simp add: listContent_def Let_def)
  have d: "c \<notin> set (map row_id (table s))" using no by auto
  from a b c d show ?thesis by auto
qed

theorem addContent_update_missing_witness:
  "addContent example_stringify text_metadata JNull (Some 7) example_storage
     = (Inr 7, (log (DbQuery (Update 7)) example_storage)\<lparr>table := table example_storage\<rparr>) \<and>
   fst (contentExists 7 (snd (addContent example_stringify text_metadata JNull (Some 7)
                                 example_storage))) = Inr False \<and>
   fst (listContent (snd (addContent example_stringify text_metadata JNull (Some 7)
                                 example_storage))) = Inr [1, 2, 3]"
proof -
  have h1: "connection_ok example_storage" by (simp add: example_defs)
  have h2: "select_id 7 example_storage = []" by (simp add: example_defs select_id_def)
  from addContent_update_missing [OF h1 h2, of example_stringify text_metadata JNull]
  obtain s1 where s1: "addContent example_stringify text_metadata JNull (Some 7) example_storage = (Inr 7, s1)"
    "table s1 = table example_storage" "fst (contentExists 7 s1) = Inr False"
    by blast
  have "s1 = (log (DbQuery (Update 7)) example_storage)\<lparr>table := table example_storage\<rparr>"
    using s1(1) h1 h2 by (auto simp add: addContent_def Let_def select_id_def example_defs)
  moreover have "fst (listContent s1) = Inr [1,2,3]"
    using s1(2) h1 s1(1) by (auto simp add: listContent_def Let_def example_defs addContent_def)
  ultimately show ?thesis using s1 by simp
qed

subsection \<open>The filename check\<close>

text \<open>
  Every method that takes a filename calls the check first: a filename that the check
  rejects makes the method fail with the storage unchanged, so without any call of the
  file system.
\<close>

lemma rejected_calls:
  assumes "\<not> check filename"
  shows "addFile check c filename readStream s = (Inl InvalidFilename, s)"
    and "deleteFile check c filename s = (Inl InvalidFilename, s)"
    and "fileExists check contentId filename s = (Inl InvalidFilename, s)"
    and "getFileStats check contentId filename s = (Inl InvalidFilename, s)"
    and "getFileStream check contentId filename rangeStart rangeEnd s = (Inl InvalidFilename, s)"
  using assms
  by (simp_all add: addFile_def deleteFile_def fileExists_def getFileStats_def
      getFileStream_def)

text \<open>
  The check does not keep \<open>addFile\<close> inside the directory of the content object. With
  the filename \<open>.\<close> the path of the file is that directory itself, and for every check
  that lets the name pass and in every storage the first call of \<open>addFile\<close> is
  \<open>ensureDir\<close> on the parent of the directory.
\<close>

lemma file_path_dot: "file_path s c ''.'' = content_dir s c"
  using file_path_eq [of "''.''" s c] by simp

lemma not_prefix_butlast: "xs \<noteq> [] \<Longrightarrow> \<not> prefix xs (butlast xs)"
proof
  assume "xs \<noteq> []" and "prefix xs (butlast xs)"
  then have "length xs \<le> length (butlast xs)" by (intro prefix_length_le)
  then have "length xs \<le> length xs - 1" by (simp only: length_butlast)
  with \<open>xs \<noteq> []\<close> show False by (cases xs) simp_all
qed

lemma addFile_dot_first_call:
  assumes "check ''.''"
  shows "\<exists>rest. new_calls s (snd (addFile check c ''.'' readStream s)) =
           FsCall EnsureDir (butlast (content_dir s c)) # rest"
    and "\<not> prefix (content_dir s c) (butlast (content_dir s c))"
proof -
  have d: "path_dirname (file_path s c ''.'') = butlast (content_dir s c)"
    by (simp add: file_path_dot path_dirname_def content_dir_segments)
  show "\<exists>rest. new_calls s (snd (addFile check c ''.'' readStream s)) =
           FsCall EnsureDir (butlast (content_dir s c)) # rest"
    using assms d by (auto simp: addFile_def Let_def new_calls_def split: option.splits)
  show "\<not> prefix (content_dir s c) (butlast (content_dir s c))"
    by (rule not_prefix_butlast) (rule content_dir_nonempty)
qed

text \<open>
  Claim C6 does not hold of the code. The filename \<open>.\<close> passes the check of the
  specification. In the example storage, where content 5 has no directory, \<open>addFile\<close>
  with this filename succeeds; it calls \<open>ensureDir\<close> on the content root, which is not
  inside the directory of content 5, and \<open>createWriteStream\<close> on the path of the
  directory itself, where it leaves a file.
\<close>

theorem addFile_dot_outside_content_dir:
  "checkFilename (\<lambda>c. False) ''.'' \<and>
   content_dir example_storage 5 = [''h5p'', ''content'', ''5''] \<and>
   \<not> fs_pathExists (content_dir example_storage 5) (fs example_storage) \<and>
   fst (addFile (checkFilename (\<lambda>c. False)) 5 ''.'' [9] example_storage) = Inr () \<and>
   new_calls example_storage
     (snd (addFile (checkFilename (\<lambda>c. False)) 5 ''.'' [9] example_storage))
     = [FsCall EnsureDir [''h5p'', ''content''],
        FsCall CreateWriteStream [''h5p'', ''content'', ''5'']] \<and>
   \<not> prefix (content_dir example_storage 5) [''h5p'', ''content''] \<and>
   fs_lookup (content_dir example_storage 5)
     (fs (snd (addFile (checkFilename (\<lambda>c. False)) 5 ''.'' [9] example_storage)))
     = Some (File [9])"
proof -
  have h: "checkFilename (\<lambda>c. False) ''.''" by (simp add: checkFilename_def)
  have d: "content_dir example_storage 5 = [''h5p'', ''content'', ''5'']"
    by (simp add: example_content_dir id_text_5)
  have p: "file_path example_storage 5 ''.'' = [''h5p'', ''content'', ''5'']"
    by (simp add: file_path_dot d)
  have n: "\<not> fs_pathExists [''h5p'', ''content'', ''5''] (fs example_storage)"
    by (simp add: fs_eval example_storage_def example_tree_def)
  have e: "fs_ensureDir [''h5p'', ''content''] (fs example_storage) = Some (fs example_storage)"
    by (simp add: fs_eval example_storage_def example_tree_def)
  have w: "fs_writeFile [''h5p'', ''content'', ''5''] [9] (fs example_storage) =
      Some (Dir [(''h5p'',
           Dir [(''content'',
                 Dir [(''1'',
                       Dir [(''a.txt'', File [10, 11, 12, 13, 14, 15, 16, 17, 18, 19, 20, 21]),
                            (''README'', File [7]),
                            (''sub'', Dir [(''b.txt'', File [4, 5])])]),
                      (''5'', File [9])])])])"
    by (simp add: fs_eval example_storage_def example_tree_def)
  have dn: "path_dirname [''h5p'', ''content'', ''5''] = [''h5p'', ''content'']"
    by (simp add: fs_eval)
  have a: "addFile (checkFilename (\<lambda>c. False)) 5 ''.'' [9] example_storage =
      (Inr (),
       (log (FsCall CreateWriteStream [''h5p'', ''content'', ''5''])
          (log (FsCall EnsureDir [''h5p'', ''content'']) example_storage))
        \<lparr>fs := Dir [(''h5p'',
           Dir [(''content'',
                 Dir [(''1'',
                       Dir [(''a.txt'', File [10, 11, 12, 13, 14, 15, 16, 17, 18, 19, 20, 21]),
                            (''README'', File [7]),
                            (''sub'', Dir [(''b.txt'', File [4, 5])])]),
                      (''5'', File [9])])])]\<rparr>)"
    using h p e w dn by (simp add: addFile_def Let_def)
  show ?thesis
    unfolding a using h d n by (simp add: new_calls_def)
qed

text \<open>
  Claim C7. For a filename that passes the check, \<open>fileExists\<close> with an undefined content
  id returns false, without an error and without a call of the file system.
\<close>

theorem fileExists_undefined_id:
  "check filename \<Longrightarrow> fileExists check None filename s = (Inr False, s)"
  by (simp add: fileExists_def)

theorem fileExists_undefined_id_witness:
  "checkFilename (\<lambda>c. False) ''a.txt'' \<and>
   fileExists (checkFilename (\<lambda>c. False)) None ''a.txt'' example_storage
     = (Inr False, example_storage)"
proof -
  have h: "checkFilename (\<lambda>c. False) ''a.txt''" by (simp add: checkFilename_def)
  from fileExists_undefined_id [of "checkFilename (\<lambda>c. False)" "''a.txt''" example_storage] h
  show ?thesis by simp
qed

subsection \<open>Deleting and reading a file\<close>

text \<open>
  Claim C8. For a filename that passes the check of the specification, \<open>deleteFile\<close>
  fails with the 404 error exactly when nothing exists at the path of the file, where
  \<open>pathExists\<close> counts a directory as well as a file. When something exists there,
  \<open>deleteFile\<close> succeeds, the file tree afterwards is the one with the path removed, and
  nothing exists at the path any more.
\<close>

theorem deleteFile_not_found_iff:
  assumes "checkFilename disallowed filename"
  shows "(fst (deleteFile (checkFilename disallowed) c filename s) =
            Inl (H5pError ''storage-file-implementations:delete-content-file-not-found'' 404)
          \<longleftrightarrow> \<not> fs_pathExists (file_path s c filename) (fs s)) \<and>
         (fs_pathExists (file_path s c filename) (fs s) \<longrightarrow>
            fst (deleteFile (checkFilename disallowed) c filename s) = Inr () \<and>
            fs (snd (deleteFile (checkFilename disallowed) c filename s)) =
              fs_remove (file_path s c filename) (fs s) \<and>
            \<not> fs_pathExists (file_path s c filename)
                (fs (snd (deleteFile (checkFilename disallowed) c filename s))))"
  using assms fs_pathExists_remove [OF file_path_nonempty [OF assms, of s c], of "fs s"]
  by (simp add: deleteFile_def Let_def)

text \<open>
  In the example the file \<open>sub/b.txt\<close> is removed; \<open>sub/c.txt\<close> does not exist, and
  nothing is found at \<open>a.txt/\<close>, a file named with a separator at the end: for both the
  error is the 404.
\<close>

theorem deleteFile_not_found_iff_witness:
  "fst (deleteFile (checkFilename (\<lambda>c. False)) 1 ''sub/b.txt'' example_storage) = Inr () \<and>
   fs (snd (deleteFile (checkFilename (\<lambda>c. False)) 1 ''sub/b.txt'' example_storage)) =
     Dir [(''h5p'',
           Dir [(''content'',
                 Dir [(''1'',
                       Dir [(''a.txt'', File [10, 11, 12, 13, 14, 15, 16, 17, 18, 19, 20, 21]),
                            (''README'', File [7]),
                            (''sub'', Dir [])])])])] \<and>
   fst (deleteFile (checkFilename (\<lambda>c. False)) 1 ''sub/c.txt'' example_storage) =
     Inl (H5pError ''storage-file-implementations:delete-content-file-not-found'' 404) \<and>
   fst (deleteFile (checkFilename (\<lambda>c. False)) 1 ''a.txt/'' example_storage) =
     Inl (H5pError ''storage-file-implementations:delete-content-file-not-found'' 404)"
proof -
  have h1: "checkFilename (\<lambda>c. False) ''sub/b.txt''" by (simp add: checkFilename_def)
  have h2: "checkFilename (\<lambda>c. False) ''sub/c.txt''" by (simp add: checkFilename_def)
  have h3: "checkFilename (\<lambda>c. False) ''a.txt/''" by (simp add: checkFilename_def)
  have p1: "file_path example_storage 1 ''sub/b.txt''
      = [''h5p'', ''content'', ''1'', ''sub'', ''b.txt'']"
    by (simp add: example_file_path id_text_1)
  have p2: "file_path example_storage 1 ''sub/c.txt''
      = [''h5p'', ''content'', ''1'', ''sub'', ''c.txt'']"
    by (simp add: example_file_path id_text_1)
  have p3: "file_path example_storage 1 ''a.txt/''
      = [''h5p'', ''content'', ''1'', ''a.txt'', []]"
    by (simp add: example_file_path id_text_1)
  have e1: "fs_pathExists (file_path example_storage 1 ''sub/b.txt'') (fs example_storage)"
    unfolding p1 by (simp add: fs_eval example_storage_def example_tree_def)
  have e2: "\<not> fs_pathExists (file_path example_storage 1 ''sub/c.txt'') (fs example_storage)"
    unfolding p2 by (simp add: fs_eval example_storage_def example_tree_def)
  have e3: "\<not> fs_pathExists (file_path example_storage 1 ''a.txt/'') (fs example_storage)"
    unfolding p3 by (simp add: fs_eval example_storage_def example_tree_def)
  have r: "fs_remove [''h5p'', ''content'', ''1'', ''sub'', ''b.txt''] (fs example_storage) =
     Dir [(''h5p'',
           Dir [(''content'',
                 Dir [(''1'',
                       Dir [(''a.txt'', File [10, 11, 12, 13, 14, 15, 16, 17, 18, 19, 20, 21]),
                            (''README'', File [7]),
                            (''sub'', Dir [])])])])]"
    by (simp add: fs_eval example_storage_def example_tree_def)
  from deleteFile_not_found_iff [OF h1, of 1 example_storage]
    deleteFile_not_found_iff [OF h2, of 1 example_storage]
    deleteFile_not_found_iff [OF h3, of 1 example_storage] e1 e2 e3 r p1
  show ?thesis by simp
qed

lemma range_bytes_nth:
  assumes "st \<le> en" and "en < length bs"
  shows "length (take (Suc en - st) (drop st bs)) = Suc (en - st)"
    and "i < Suc (en - st) \<Longrightarrow> take (Suc en - st) (drop st bs) ! i = bs ! (st + i)"
  using assms by (auto simp: min_def Suc_diff_le)

text \<open>
  Claim C9. For a path at which the file system finds a file with the bytes \<open>bs\<close>, and
  a range with \<open>rangeStart \<le> rangeEnd < length bs\<close>, the stream of \<open>getFileStream\<close>
  yields \<open>rangeEnd - rangeStart + 1\<close> bytes, and its byte \<open>i\<close> is the byte
  \<open>rangeStart + i\<close> of the file.
\<close>

theorem getFileStream_range:
  assumes "check file"
    and "fs_resolve (file_path s c file) (fs s) = Some (File bs)"
    and "rangeStart \<le> rangeEnd" and "rangeEnd < length bs"
  shows "\<exists>out. fst (getFileStream check (Some c) file (Some rangeStart) (Some rangeEnd) s)
               = Inr out \<and>
           out = take (Suc rangeEnd - rangeStart) (drop rangeStart bs) \<and>
           length out = Suc (rangeEnd - rangeStart) \<and>
           (\<forall>i<length out. out ! i = bs ! (rangeStart + i))"
proof -
  have "fst (getFileStream check (Some c) file (Some rangeStart) (Some rangeEnd) s)
      = Inr (take (Suc rangeEnd - rangeStart) (drop rangeStart bs))"
    using assms(1-3)
    by (simp add: getFileStream_def fileExists_def fs_pathExists_def Let_def
        fs_createReadStream_def range_valid_def range_bytes_def)
  then show ?thesis
    using range_bytes_nth [OF assms(3,4)] by simp
qed

theorem getFileStream_range_witness:
  "fst (getFileStream (checkFilename (\<lambda>c. False)) (Some 1) ''a.txt'' (Some 10) (Some 11)
          example_storage) = Inr [20, 21]"
proof -
  have h1: "checkFilename (\<lambda>c. False) ''a.txt''" by (simp add: checkFilename_def)
  have p: "file_path example_storage 1 ''a.txt'' = [''h5p'', ''content'', ''1'', ''a.txt'']"
    by (simp add: example_file_path id_text_1)
  have h2: "fs_resolve (file_path example_storage 1 ''a.txt'') (fs example_storage)
      = Some (File [10, 11, 12, 13, 14, 15, 16, 17, 18, 19, 20, 21])"
    unfolding p by (simp add: fs_eval example_storage_def example_tree_def)
  have h3: "(10::nat) \<le> 11" by simp
  have h4: "11 < length [10, 11, 12, 13, 14, 15, 16, 17, 18, 19, 20, 21 :: byte]" by simp
  from getFileStream_range [where check = "checkFilename (\<lambda>c. False)", OF h1 h2 h3 h4]
  show ?thesis by simp
qed

text \<open>
  At \<open>a.txt/\<close> nothing is found, although \<open>a.txt\<close> is a file: \<open>getFileStream\<close> fails
  with the 404 error.
\<close>

lemma getFileStream_trailing_separator:
  "fst (getFileStream (checkFilename (\<lambda>c. False)) (Some 1) ''a.txt/'' (Some 2) (Some 5)
          example_storage) = Inl (H5pError ''content-file-missing'' 404)"
proof -
  have h: "checkFilename (\<lambda>c. False) ''a.txt/''" by (simp add: checkFilename_def)
  have p: "file_path example_storage 1 ''a.txt/''
      = [''h5p'', ''content'', ''1'', ''a.txt'', []]"
    by (simp add: example_file_path id_text_1)
  have e: "\<not> fs_pathExists (file_path example_storage 1 ''a.txt/'') (fs example_storage)"
    unfolding p by (simp add: fs_eval example_storage_def example_tree_def)
  from h e show ?thesis
    by (simp add: getFileStream_def fileExists_def Let_def)
qed

end
